theory Spec2Isabelle
  imports Main
begin

section \<open>JavaScript values\<close>

text \<open>
  The values that flow through \<^verbatim>\<open>lib/task/task.js\<close> as task results and as errors are
  modelled as plain data: \<^verbatim>\<open>undefined\<close>, \<^verbatim>\<open>null\<close>, booleans, integer-valued numbers,
  strings, and objects. An \<open>Obj\<close> stands for an ordinary object with the listed own
  data properties, none of them named \<^verbatim>\<open>toString\<close> or \<^verbatim>\<open>valueOf\<close>: its conversions
  to a string and to a number are the ones inherited from \<^verbatim>\<open>Object.prototype\<close>, which
  do not throw. Symbols, functions, accessors and proxies are not part of this universe.
  The conversions that can throw, on a symbol and on an object that shadows
  \<^verbatim>\<open>toString\<close>, are modelled on the wider values \<open>jsany\<close> further down, where
  \<^verbatim>\<open>fault\<close> is given once more with them.
\<close>

datatype jsval =
    Undefined
  | Null
  | Bool bool
  | Num int
  | Str string
  | Obj "(string \<times> jsval) list"

definition nullish :: "jsval \<Rightarrow> bool" where
  \<comment> \<open>\<^verbatim>\<open>v == null\<close>\<close>
  "nullish v = (v = Null \<or> v = Undefined)"

definition TypeError :: "string \<Rightarrow> jsval" where
  "TypeError m = Obj [(''name'', Str ''TypeError''), (''message'', Str m)]"

fun getprop :: "jsval \<Rightarrow> string \<Rightarrow> jsval + jsval" where
  \<comment> \<open>\<^verbatim>\<open>v.k\<close> for a data property \<^verbatim>\<open>k\<close>: reading a property of \<^verbatim>\<open>null\<close> or \<^verbatim>\<open>undefined\<close>
      throws; a primitive or an object without the property gives \<^verbatim>\<open>undefined\<close>.\<close>
  "getprop Undefined k = Inl (TypeError ''Cannot read properties of undefined'')"
| "getprop Null k = Inl (TypeError ''Cannot read properties of null'')"
| "getprop (Obj fs) k = Inr (case map_of fs k of None \<Rightarrow> Undefined | Some v \<Rightarrow> v)"
| "getprop v k = Inr Undefined"


section \<open>Collaborators outside the module\<close>

text \<open>
  Everything \<^verbatim>\<open>task.js\<close> requires from other modules and from the runtime is a parameter of
  the model.
  \<^item> \<open>connect_throws k\<close>: what \<^verbatim>\<open>pkg.withDefaults({ db: connect(config.get(..)), crypto })\<close> does
    when it is evaluated for the \<open>k\<close>-th resource handle: \<open>Some x\<close> when the expression throws
    \<open>x\<close>, \<open>None\<close> when it returns the container.
  \<^item> \<open>destroy_throws h\<close>: likewise for \<^verbatim>\<open>db.destroy()\<close> on handle \<open>h\<close>.
  \<^item> \<open>append_settles action payload\<close>: how the promise returned by
    \<^verbatim>\<open>Audit.log(null, action, null, payload)\<close> settles.
  \<^item> \<open>inspect\<close> (util), \<open>serialize\<close> (util/http), \<open>serializable\<close> (Problem), \<open>merge\<close> (ramda).
  \<^item> \<open>NumberToString\<close> and \<open>string_lt\<close>: the runtime's rendering of a number in a template
    literal and its comparison \<^verbatim>\<open>s < n\<close> of a string with a number.
\<close>

datatype settle = Resolved jsval | Rejected jsval | Pending

record env =
  connect_throws :: "nat \<Rightarrow> jsval option"
  destroy_throws :: "nat \<Rightarrow> jsval option"
  append_settles :: "string \<Rightarrow> jsval \<Rightarrow> settle"
  inspect :: "jsval \<Rightarrow> string"
  serialize :: "jsval \<Rightarrow> jsval"
  serializable :: "jsval \<Rightarrow> jsval"
  merge :: "jsval \<Rightarrow> jsval \<Rightarrow> jsval"
  NumberToString :: "int \<Rightarrow> string"
  string_lt :: "string \<Rightarrow> int \<Rightarrow> bool"

fun js_lt :: "env \<Rightarrow> jsval \<Rightarrow> int \<Rightarrow> bool" where
  \<comment> \<open>\<^verbatim>\<open>v < n\<close>: \<^verbatim>\<open>undefined\<close> and ordinary objects convert to NaN, \<^verbatim>\<open>null\<close> to 0,
      booleans to 0 and 1.\<close>
  "js_lt E Undefined n = False"
| "js_lt E Null n = (0 < n)"
| "js_lt E (Bool b) n = ((if b then 1 else 0) < n)"
| "js_lt E (Num m) n = (m < n)"
| "js_lt E (Str s) n = string_lt E s n"
| "js_lt E (Obj fs) n = False"

fun template :: "env \<Rightarrow> jsval \<Rightarrow> string" where
  \<comment> \<open>the text of \<^verbatim>\<open>${v}\<close> in a template literal\<close>
  "template E Undefined = ''undefined''"
| "template E Null = ''null''"
| "template E (Bool b) = (if b then ''true'' else ''false'')"
| "template E (Num m) = NumberToString E m"
| "template E (Str s) = s"
| "template E (Obj fs) = ''[object Object]''"


section \<open>Process state\<close>

text \<open>
  \<open>container\<close> is the slot \<^verbatim>\<open>task._container\<close>; a container is identified by its resource
  handle \<open>db\<close>. \<open>stdout\<close> and \<open>stderr\<close> hold the chunks written so far, \<open>exitCode\<close> is
  \<^verbatim>\<open>process.exitCode\<close> (\<open>None\<close> while it is unset). \<open>opened\<close> counts the resource handles
  opened so far and \<open>trace\<close> records the calls made to the collaborators, in order.
\<close>

datatype container = Container (db: nat)

datatype event =
    Constructed nat
  | Destroyed nat
  | Appended nat string jsval
  | Used nat string
  | Invoked

record world =
  container :: "container option"
  opened :: nat
  stdout :: "string list"
  stderr :: "string list"
  exitCode :: "int option"
  trace :: "event list"

definition exit_status :: "world \<Rightarrow> int" where
  \<comment> \<open>the status the process exits with when it ends normally\<close>
  "exit_status w = (case exitCode w of None \<Rightarrow> 0 | Some c \<Rightarrow> c)"

definition log_event :: "event \<Rightarrow> world \<Rightarrow> world" where
  "log_event e w = w\<lparr>trace := trace w @ [e]\<rparr>"


section \<open>Promises\<close>

text \<open>
  A promise is the work that remains until it settles: run on the process state it yields
  how it settles and the state at that moment. \<open>Pending\<close> is a promise that never settles.
  A \<^verbatim>\<open>then\<close> handler returns a value, throws, or returns another promise.
\<close>

type_synonym promise = "world \<Rightarrow> settle \<times> world"

datatype hresult = Return jsval | Throw jsval | Await promise

type_synonym handler = "jsval \<Rightarrow> world \<Rightarrow> hresult \<times> world"

definition Promise_resolve :: "jsval \<Rightarrow> promise" where
  "Promise_resolve v w = (Resolved v, w)"

definition Promise_reject :: "jsval \<Rightarrow> promise" where
  "Promise_reject e w = (Rejected e, w)"

fun adopt :: "hresult \<times> world \<Rightarrow> settle \<times> world" where
  \<comment> \<open>how the promise made by \<^verbatim>\<open>then\<close> settles once its handler has run\<close>
  "adopt (Return v, w) = (Resolved v, w)"
| "adopt (Throw e, w) = (Rejected e, w)"
| "adopt (Await p, w) = p w"

definition promise_then :: "promise \<Rightarrow> handler \<Rightarrow> handler \<Rightarrow> promise" where
  \<comment> \<open>\<^verbatim>\<open>p.then(onFulfilled, onRejected)\<close>\<close>
  "promise_then p onFulfilled onRejected w =
     (case p w of
        (Resolved v, w1) \<Rightarrow> adopt (onFulfilled v w1)
      | (Rejected e, w1) \<Rightarrow> adopt (onRejected e w1)
      | (Pending, w1) \<Rightarrow> (Pending, w1))"

definition rethrow :: handler where
  \<comment> \<open>the rejection handler of \<^verbatim>\<open>p.then(onFulfilled)\<close>\<close>
  "rethrow e w = (Throw e, w)"


section \<open>Task generation: \<^verbatim>\<open>task.withContainer\<close>\<close>

definition construct :: "env \<Rightarrow> world \<Rightarrow> (jsval + container) \<times> world" where
  \<comment> \<open>\<^verbatim>\<open>task._container = pkg.withDefaults({ db: connect(..), crypto })\<close>: when the right-hand
      side throws, nothing is assigned.\<close>
  "construct E w =
     (case connect_throws E (opened w) of
        Some x \<Rightarrow> (Inl x, w)
      | None \<Rightarrow> (Inr (Container (opened w)),
          w\<lparr>container := Some (Container (opened w)), opened := Suc (opened w),
            trace := trace w @ [Constructed (opened w)]\<rparr>))"

definition cleanup :: "env \<Rightarrow> (jsval \<Rightarrow> promise) \<Rightarrow> handler" where
  \<comment> \<open>\<^verbatim>\<open>(next) => (inner) => { task._container.db.destroy(); delete task._container;
      return next(inner); }\<close>, reading the slot when it runs\<close>
  "cleanup E next inner w =
     (case container w of
        None \<Rightarrow> (Throw (TypeError ''Cannot read properties of undefined''), w)
      | Some c \<Rightarrow>
          (case destroy_throws E (db c) of
             Some x \<Rightarrow> (Throw x, log_event (Destroyed (db c)) w)
           | None \<Rightarrow>
               (Await (next inner),
                (log_event (Destroyed (db c)) w)\<lparr>container := None\<rparr>)))"

text \<open>
  A task definition takes the container and the caller's arguments; calling it either
  throws or returns the task's promise.
\<close>

type_synonym 'a taskdef = "container \<Rightarrow> 'a \<Rightarrow> world \<Rightarrow> (jsval + promise) \<times> world"

definition withContainer ::
  "env \<Rightarrow> 'a taskdef \<Rightarrow> 'a \<Rightarrow> world \<Rightarrow> (jsval + promise) \<times> world" where
  \<comment> \<open>The two branches are the two values of \<^verbatim>\<open>needsContainer\<close>: with a registered
      container the result is returned as it is; without one the container is constructed
      first and the result gets the cleanup handlers.\<close>
  "withContainer E taskdef args w =
     (case container w of
        Some c \<Rightarrow> taskdef c args w
      | None \<Rightarrow>
          (case construct E w of
             (Inl x, w1) \<Rightarrow> (Inl x, w1)
           | (Inr c, w1) \<Rightarrow>
               (case taskdef c args w1 of
                  (Inl x, w2) \<Rightarrow> (Inl x, w2)
                | (Inr result, w2) \<Rightarrow>
                    (Inr (promise_then result (cleanup E Promise_resolve)
                            (cleanup E Promise_reject)), w2))))"


section \<open>Task runner\<close>

datatype stream = Stdout | Stderr

definition stream_write :: "stream \<Rightarrow> string \<Rightarrow> world \<Rightarrow> world" where
  \<comment> \<open>\<^verbatim>\<open>output.write(chunk)\<close> on \<^verbatim>\<open>process.stdout\<close> or \<^verbatim>\<open>process.stderr\<close>\<close>
  "stream_write out chunk w =
     (case out of
        Stdout \<Rightarrow> w\<lparr>stdout := stdout w @ [chunk]\<rparr>
      | Stderr \<Rightarrow> w\<lparr>stderr := stderr w @ [chunk]\<rparr>)"

definition newline :: string where
  "newline = [CHR 0x0A]"

definition writeTo :: "env \<Rightarrow> stream \<Rightarrow> jsval \<Rightarrow> world \<Rightarrow> world" where
  "writeTo E output x w = stream_write output (template E x @ newline) w"

definition writeToStderr :: "env \<Rightarrow> jsval \<Rightarrow> world \<Rightarrow> world" where
  "writeToStderr E = writeTo E Stderr"

definition fault_condition :: "env \<Rightarrow> jsval \<Rightarrow> jsval + bool" where
  \<comment> \<open>\<^verbatim>\<open>(error != null) && (error.isProblem === true) && (error.httpCode < 500)\<close>,
      evaluated left to right; \<open>Inl\<close> when evaluating it throws.\<close>
  "fault_condition E error =
     (if nullish error then Inr False
      else case getprop error ''isProblem'' of
             Inl x \<Rightarrow> Inl x
           | Inr p \<Rightarrow>
               if p = Bool True
               then (case getprop error ''httpCode'' of
                       Inl x \<Rightarrow> Inl x
                     | Inr c \<Rightarrow> Inr (js_lt E c 500))
               else Inr False)"

definition fault :: "env \<Rightarrow> jsval \<Rightarrow> world \<Rightarrow> (jsval + unit) \<times> world" where
  \<comment> \<open>\<open>Inl\<close> when the function throws, \<open>Inr ()\<close> when it returns.\<close>
  "fault E error w =
     (case fault_condition E error of
        Inl x \<Rightarrow> (Inl x, w)
      | Inr True \<Rightarrow>
          (case getprop error ''message'' of
             Inl x \<Rightarrow> (Inl x, w)
           | Inr m \<Rightarrow>
               (let w1 = writeToStderr E m w in
                case getprop error ''problemDetails'' of
                  Inl x \<Rightarrow> (Inl x, w1)
                | Inr d \<Rightarrow>
                    (Inr (),
                     (if nullish d then w1 else writeToStderr E (Str (inspect E d)) w1)
                       \<lparr>exitCode := Some 1\<rparr>)))
      | Inr False \<Rightarrow>
          (Inr (), (writeToStderr E (Str (inspect E error)) w)\<lparr>exitCode := Some 1\<rparr>))"

definition fault_handler :: "env \<Rightarrow> handler" where
  \<comment> \<open>\<^verbatim>\<open>fault\<close> used as a \<^verbatim>\<open>then\<close> handler: it returns \<^verbatim>\<open>undefined\<close>.\<close>
  "fault_handler E error w =
     (case fault E error w of
        (Inl x, w1) \<Rightarrow> (Throw x, w1)
      | (Inr u, w1) \<Rightarrow> (Return Undefined, w1))"


section \<open>Audit logging\<close>

definition Audit_log :: "env \<Rightarrow> container \<Rightarrow> string \<Rightarrow> jsval \<Rightarrow> promise" where
  \<comment> \<open>the promise of \<^verbatim>\<open>Audit.log(null, action, null, payload)\<close> on the container's handle\<close>
  "Audit_log E c action payload w =
     (append_settles E action payload, log_event (Appended (db c) action payload) w)"

definition auditLog ::
  "env \<Rightarrow> string \<times> bool \<times> jsval \<Rightarrow> world \<Rightarrow> (jsval + promise) \<times> world" where
  "auditLog E =
     withContainer E (\<lambda>c (action, success, details) w.
       (Inr (Audit_log E c action (merge E (Obj [(''success'', Bool success)]) details)), w))"

definition audit_failed :: "env \<Rightarrow> string \<Rightarrow> promise \<Rightarrow> handler" where
  \<comment> \<open>\<^verbatim>\<open>(auditError) => { writeToStderr(msg); fault(auditError); return outcome; }\<close>\<close>
  "audit_failed E msg outcome auditError w =
     (case fault E auditError (writeToStderr E (Str msg) w) of
        (Inl x, w1) \<Rightarrow> (Throw x, w1)
      | (Inr u, w1) \<Rightarrow> (Await outcome, w1))"

definition failure_details :: "env \<Rightarrow> jsval \<Rightarrow> jsval" where
  \<comment> \<open>\<^verbatim>\<open>Option.of(error).map(Problem.serializable).orNull()\<close>\<close>
  "failure_details E error = (if nullish error then Null else serializable E error)"

definition audit_success :: "env \<Rightarrow> string \<Rightarrow> handler" where
  \<comment> \<open>the fulfilment handler of \<^verbatim>\<open>auditing\<close>\<close>
  "audit_success E action result w =
     (case auditLog E (action, True, result) w of
        (Inl x, w1) \<Rightarrow> (Throw x, w1)
      | (Inr logged, w1) \<Rightarrow>
          (Await (promise_then logged
                    (\<lambda>u w'. (Await (Promise_resolve result), w'))
                    (audit_failed E ''Failed to audit-log task success message!''
                       (Promise_resolve result))), w1))"

definition audit_failure :: "env \<Rightarrow> string \<Rightarrow> handler" where
  \<comment> \<open>the rejection handler of \<^verbatim>\<open>auditing\<close>\<close>
  "audit_failure E action error w =
     (case auditLog E (action, False, failure_details E error) w of
        (Inl x, w1) \<Rightarrow> (Throw x, w1)
      | (Inr logged, w1) \<Rightarrow>
          (Await (promise_then logged
                    (\<lambda>u w'. (Await (Promise_reject error), w'))
                    (audit_failed E ''Failed to audit-log task failure message!''
                       (Promise_reject error))), w1))"

text \<open>
  A task is a promise, or a function of no argument that is called for a task
  (\<^verbatim>\<open>typeof t === 'function'\<close>); the call may throw.
\<close>

datatype task = InFlight promise | Producer "world \<Rightarrow> call"
and call = Threw jsval world | Returned task world

primrec auditing :: "env \<Rightarrow> string \<Rightarrow> task \<Rightarrow> world \<Rightarrow> (jsval + promise) \<times> world"
  and auditing_call :: "env \<Rightarrow> string \<Rightarrow> call \<Rightarrow> (jsval + promise) \<times> world" where
  "auditing E action (InFlight t) w =
     (Inr (promise_then t (audit_success E action) (audit_failure E action)), w)"
| "auditing E action (Producer t) w = auditing_call E action (t w)"
| "auditing_call E action (Threw x w1) = (Inl x, w1)"
| "auditing_call E action (Returned t' w1) = auditing E action t' w1"

definition print_result :: "env \<Rightarrow> handler" where
  \<comment> \<open>\<^verbatim>\<open>compose(writeTo(process.stdout), inspect, serialize)\<close>; the handler returns what
      \<^verbatim>\<open>write\<close> returns, taken to be \<^verbatim>\<open>true\<close> (the stream accepts the chunk; the
      \<^verbatim>\<open>false\<close> of back-pressure is not modelled).\<close>
  "print_result E v w =
     (Return (Bool True), writeTo E Stdout (Str (inspect E (serialize E v))) w)"

primrec run :: "env \<Rightarrow> task \<Rightarrow> world \<Rightarrow> (jsval + promise) \<times> world"
  and run_call :: "env \<Rightarrow> call \<Rightarrow> (jsval + promise) \<times> world" where
  "run E (InFlight t) w = (Inr (promise_then t (print_result E) (fault_handler E)), w)"
| "run E (Producer t) w = run_call E (t w)"
| "run_call E (Threw x w1) = (Inl x, w1)"
| "run_call E (Returned t' w1) = run E t' w1"


section \<open>Driving a task\<close>

text \<open>
  \<open>force\<close> calls producer functions until a promise is reached, and \<open>drive\<close> lets the
  promise returned by a call run until it settles.
\<close>

primrec force :: "task \<Rightarrow> world \<Rightarrow> (jsval + promise) \<times> world"
  and force_call :: "call \<Rightarrow> (jsval + promise) \<times> world" where
  "force (InFlight t) w = (Inr t, w)"
| "force (Producer t) w = force_call (t w)"
| "force_call (Threw x w1) = (Inl x, w1)"
| "force_call (Returned t' w1) = force t' w1"

definition drive :: "(jsval + promise) \<times> world \<Rightarrow> (jsval + settle) \<times> world" where
  "drive r =
     (case r of
        (Inl x, w) \<Rightarrow> (Inl x, w)
      | (Inr p, w) \<Rightarrow> (case p w of (s, w') \<Rightarrow> (Inr s, w')))"

definition invoke :: "(jsval + promise) \<times> world \<Rightarrow> call" where
  \<comment> \<open>the call \<^verbatim>\<open>t()\<close> of a producer \<^verbatim>\<open>() => f(args)\<close>\<close>
  "invoke r = (case r of (Inl x, w) \<Rightarrow> Threw x w | (Inr p, w) \<Rightarrow> Returned (InFlight p) w)"

definition producer_of :: "(world \<Rightarrow> (jsval + promise) \<times> world) \<Rightarrow> task" where
  \<comment> \<open>the task \<^verbatim>\<open>() => f(args)\<close> for a task function \<^verbatim>\<open>f\<close> applied to its arguments\<close>
  "producer_of f = Producer (\<lambda>w. invoke (f w))"

definition boot :: world where
  \<comment> \<open>the state of a process that has just started\<close>
  "boot = \<lparr>container = None, opened = 0, stdout = [], stderr = [], exitCode = None,
            trace = []\<rparr>"


section \<open>The diagnostic in the words of the specification\<close>

fun field :: "jsval \<Rightarrow> string \<Rightarrow> jsval" where
  "field (Obj fs) k = (case map_of fs k of None \<Rightarrow> Undefined | Some v \<Rightarrow> v)"
| "field v k = Undefined"

definition user_facing_below_500 :: "env \<Rightarrow> jsval \<Rightarrow> bool" where
  \<comment> \<open>a user-facing problem (\<^verbatim>\<open>isProblem\<close> true) with status code below 500\<close>
  "user_facing_below_500 E e =
     (field e ''isProblem'' = Bool True \<and> js_lt E (field e ''httpCode'') 500)"

definition spec_diagnostic :: "env \<Rightarrow> jsval \<Rightarrow> string list" where
  \<comment> \<open>the message and, when present, the inspected detail of such a problem; the
      inspected error otherwise\<close>
  "spec_diagnostic E e =
     (if user_facing_below_500 E e
      then (template E (field e ''message'') @ newline) #
           (if nullish (field e ''problemDetails'') then []
            else [inspect E (field e ''problemDetails'') @ newline])
      else [inspect E e @ newline])"


section \<open>The audit record in the words of the specification\<close>

definition audit_record :: "env \<Rightarrow> settle \<Rightarrow> jsval" where
  \<comment> \<open>the detail payload appended for an outcome: \<^verbatim>\<open>success\<close> with the result, or with
      the serialized problem (\<^verbatim>\<open>null\<close> when there is no error value)\<close>
  "audit_record E s =
     (case s of
        Resolved v \<Rightarrow> merge E (Obj [(''success'', Bool True)]) v
      | Rejected e \<Rightarrow> merge E (Obj [(''success'', Bool False)]) (failure_details E e)
      | Pending \<Rightarrow> Null)"

definition audit_handle :: "world \<Rightarrow> nat" where
  \<comment> \<open>the resource handle an audit append uses: the registered container's, or the
      next one to be opened\<close>
  "audit_handle w = (case container w of Some c \<Rightarrow> db c | None \<Rightarrow> opened w)"


definition audit_rejection :: "env \<Rightarrow> world \<Rightarrow> jsval \<Rightarrow> jsval" where
  \<comment> \<open>what the audit call rejects with when the append rejects with \<open>ae\<close>: when the call
      constructed the container itself and \<^verbatim>\<open>db.destroy()\<close> throws, the thrown value\<close>
  "audit_rejection E w ae =
     (case container w of
        Some c \<Rightarrow> ae
      | None \<Rightarrow> (case destroy_throws E (opened w) of Some x \<Rightarrow> x | None \<Rightarrow> ae))"



section \<open>Chains of steps that need the container\<close>

text \<open>
  A step is a task definition wrapped by \<^verbatim>\<open>task.withContainer\<close>. Its body uses the
  container it is given (recorded as \<open>Used\<close>) and throws, or returns a promise that settles
  as the body says. A chain is a first step whose promise continues, in \<^verbatim>\<open>then\<close> handlers,
  with the dependent steps, each called with the result of the one before:
  \<^verbatim>\<open>task.withContainer((c) => (x) => body1(c, x).then((y) => step2(y).then(..)))\<close>.
\<close>

datatype step = Step (label: string) (body: "container \<Rightarrow> jsval \<Rightarrow> jsval + settle")

definition settled :: "settle \<Rightarrow> promise" where
  "settled s w = (s, w)"

definition settled_after :: "event \<Rightarrow> settle \<Rightarrow> promise" where
  \<comment> \<open>a promise that settles as \<open>s\<close> once the work recorded as \<open>e\<close> is done\<close>
  "settled_after e s w = (s, log_event e w)"

definition step_def :: "step \<Rightarrow> jsval taskdef" where
  "step_def s c x w =
     (case body s c x of
        Inl e \<Rightarrow> (Inl e, log_event (Used (db c) (label s)) w)
      | Inr out \<Rightarrow> (Inr (settled out), log_event (Used (db c) (label s)) w))"

fun dependents :: "env \<Rightarrow> step list \<Rightarrow> handler" where
  "dependents E [] v w = (Return v, w)"
| "dependents E (s # ss) v w =
     (case withContainer E (step_def s) v w of
        (Inl e, w1) \<Rightarrow> (Throw e, w1)
      | (Inr p, w1) \<Rightarrow> (Await (promise_then p (dependents E ss) rethrow), w1))"

definition chain_def :: "env \<Rightarrow> step \<Rightarrow> step list \<Rightarrow> jsval taskdef" where
  "chain_def E s ss c x w =
     (case step_def s c x w of
        (Inl e, w1) \<Rightarrow> (Inl e, w1)
      | (Inr p, w1) \<Rightarrow> (Inr (promise_then p (dependents E ss) rethrow), w1))"

definition chain :: "env \<Rightarrow> step \<Rightarrow> step list \<Rightarrow> jsval \<Rightarrow> world \<Rightarrow> (jsval + promise) \<times> world" where
  "chain E s ss = withContainer E (chain_def E s ss)"

text \<open>What a chain amounts to, step by step, when every step is given the container \<open>c\<close>.\<close>

fun chain_outcome :: "step list \<Rightarrow> container \<Rightarrow> jsval \<Rightarrow> settle" where
  "chain_outcome [] c v = Resolved v"
| "chain_outcome (s # ss) c v =
     (case body s c v of
        Inl e \<Rightarrow> Rejected e
      | Inr (Resolved v') \<Rightarrow> chain_outcome ss c v'
      | Inr (Rejected e) \<Rightarrow> Rejected e
      | Inr Pending \<Rightarrow> Pending)"

fun chain_uses :: "step list \<Rightarrow> container \<Rightarrow> jsval \<Rightarrow> event list" where
  "chain_uses [] c v = []"
| "chain_uses (s # ss) c v =
     Used (db c) (label s) #
     (case body s c v of Inr (Resolved v') \<Rightarrow> chain_uses ss c v' | _ \<Rightarrow> [])"

definition constructions :: "event list \<Rightarrow> nat" where
  "constructions es = length (filter (\<lambda>e. case e of Constructed h \<Rightarrow> True | _ \<Rightarrow> False) es)"

definition teardowns :: "event list \<Rightarrow> nat" where
  "teardowns es = length (filter (\<lambda>e. case e of Destroyed h \<Rightarrow> True | _ \<Rightarrow> False) es)"


section \<open>Producers that record their call\<close>

definition thunk :: "task \<Rightarrow> task" where
  \<comment> \<open>\<^verbatim>\<open>() => t\<close>, recording each call\<close>
  "thunk t = Producer (\<lambda>w. Returned t (log_event Invoked w))"


section \<open>Chains composed on the promise of the owning call\<close>

text \<open>
  The other way to chain steps: \<^verbatim>\<open>step1(x).then(step2).then(step3)\<close>. Each later step is
  called in a \<^verbatim>\<open>then\<close> handler of the promise that the call before it returned, so
  after the cleanup handlers that \<^verbatim>\<open>withContainer\<close> attached to that promise.
\<close>

definition call_step :: "env \<Rightarrow> step \<Rightarrow> handler" where
  \<comment> \<open>\<^verbatim>\<open>(v) => step(v)\<close> for the wrapped step\<close>
  "call_step E s v w =
     (case withContainer E (step_def s) v w of
        (Inl e, w1) \<Rightarrow> (Throw e, w1)
      | (Inr p, w1) \<Rightarrow> (Await p, w1))"

fun flat_then :: "env \<Rightarrow> step list \<Rightarrow> promise \<Rightarrow> promise" where
  "flat_then E [] p = p"
| "flat_then E (s # ss) p = flat_then E ss (promise_then p (call_step E s) rethrow)"

definition flat_chain ::
  "env \<Rightarrow> step \<Rightarrow> step list \<Rightarrow> jsval \<Rightarrow> world \<Rightarrow> (jsval + promise) \<times> world" where
  "flat_chain E s ss x w =
     (case withContainer E (step_def s) x w of
        (Inl e, w1) \<Rightarrow> (Inl e, w1)
      | (Inr p, w1) \<Rightarrow> (Inr (flat_then E ss p), w1))"


section \<open>The fault diagnostic on values whose conversion can throw\<close>

text \<open>
  \<^verbatim>\<open>fault\<close> converts \<^verbatim>\<open>error.httpCode\<close> to a number (\<^verbatim>\<open>< 500\<close>) and \<^verbatim>\<open>error.message\<close>
  to a string (the template literal of \<^verbatim>\<open>writeTo\<close>). Both conversions throw a TypeError
  on a symbol, and on an object for which neither \<^verbatim>\<open>toString\<close> nor \<^verbatim>\<open>valueOf\<close> yields a
  primitive. \<open>jsany\<close> widens the values by symbols and by objects that may hold them, and
  the conversions below are the exact ones on it. In this universe every property holds
  data, so an own property named \<^verbatim>\<open>toString\<close> is not callable and is skipped, and the
  inherited \<^verbatim>\<open>valueOf\<close> (or an own one, not callable either) gives no primitive: an
  object's conversion throws exactly when it has an own property \<^verbatim>\<open>toString\<close>, and gives
  \<^verbatim>\<open>[object Object]\<close> (not a number) through the inherited \<^verbatim>\<open>toString\<close> otherwise.
  \<open>inspect_any\<close>, a parameter, is \<^verbatim>\<open>util.inspect\<close> on the wider values.
\<close>

datatype jsany = Plain jsval | Symbol string | Object "(string \<times> jsany) list"

definition nullish_any :: "jsany \<Rightarrow> bool" where
  "nullish_any v = (v = Plain Null \<or> v = Plain Undefined)"

fun getprop_any :: "jsany \<Rightarrow> string \<Rightarrow> jsval + jsany" where
  "getprop_any (Plain v) k = (case getprop v k of Inl x \<Rightarrow> Inl x | Inr r \<Rightarrow> Inr (Plain r))"
| "getprop_any (Symbol d) k = Inr (Plain Undefined)"
| "getprop_any (Object fs) k = Inr (case map_of fs k of None \<Rightarrow> Plain Undefined | Some v \<Rightarrow> v)"

definition own_toString :: "(string \<times> 'a) list \<Rightarrow> bool" where
  "own_toString fs = (''toString'' \<in> set (map fst fs))"

definition object_to_primitive :: "(string \<times> 'a) list \<Rightarrow> jsval + string" where
  "object_to_primitive fs =
     (if own_toString fs then Inl (TypeError ''Cannot convert object to primitive value'')
      else Inr ''[object Object]'')"

fun template_any :: "env \<Rightarrow> jsany \<Rightarrow> jsval + string" where
  "template_any E (Plain (Obj fs)) = object_to_primitive fs"
| "template_any E (Plain v) = Inr (template E v)"
| "template_any E (Symbol d) = Inl (TypeError ''Cannot convert a Symbol value to a string'')"
| "template_any E (Object fs) = object_to_primitive fs"

fun js_lt_any :: "env \<Rightarrow> jsany \<Rightarrow> int \<Rightarrow> jsval + bool" where
  "js_lt_any E (Plain (Obj fs)) n =
     (case object_to_primitive fs of Inl x \<Rightarrow> Inl x | Inr text \<Rightarrow> Inr False)"
| "js_lt_any E (Plain v) n = Inr (js_lt E v n)"
| "js_lt_any E (Symbol d) n = Inl (TypeError ''Cannot convert a Symbol value to a number'')"
| "js_lt_any E (Object fs) n =
     (case object_to_primitive fs of Inl x \<Rightarrow> Inl x | Inr text \<Rightarrow> Inr False)"

definition writeToStderr_any :: "env \<Rightarrow> jsany \<Rightarrow> world \<Rightarrow> (jsval + unit) \<times> world" where
  \<comment> \<open>\<^verbatim>\<open>writeToStderr(x)\<close>: the template literal is evaluated before the write\<close>
  "writeToStderr_any E x w =
     (case template_any E x of
        Inl t \<Rightarrow> (Inl t, w)
      | Inr text \<Rightarrow> (Inr (), stream_write Stderr (text @ newline) w))"

definition fault_condition_any :: "env \<Rightarrow> jsany \<Rightarrow> jsval + bool" where
  "fault_condition_any E error =
     (if nullish_any error then Inr False
      else case getprop_any error ''isProblem'' of
             Inl x \<Rightarrow> Inl x
           | Inr p \<Rightarrow>
               if p = Plain (Bool True)
               then (case getprop_any error ''httpCode'' of
                       Inl x \<Rightarrow> Inl x
                     | Inr c \<Rightarrow> js_lt_any E c 500)
               else Inr False)"

definition fault_any ::
  "env \<Rightarrow> (jsany \<Rightarrow> string) \<Rightarrow> jsany \<Rightarrow> world \<Rightarrow> (jsval + unit) \<times> world" where
  "fault_any E inspect_any error w =
     (case fault_condition_any E error of
        Inl x \<Rightarrow> (Inl x, w)
      | Inr True \<Rightarrow>
          (case getprop_any error ''message'' of
             Inl x \<Rightarrow> (Inl x, w)
           | Inr m \<Rightarrow>
               (case writeToStderr_any E m w of
                  (Inl x, w1) \<Rightarrow> (Inl x, w1)
                | (Inr u, w1) \<Rightarrow>
                    (case getprop_any error ''problemDetails'' of
                       Inl x \<Rightarrow> (Inl x, w1)
                     | Inr d \<Rightarrow>
                         (Inr (),
                          (if nullish_any d then w1
                           else stream_write Stderr (inspect_any d @ newline) w1)
                            \<lparr>exitCode := Some 1\<rparr>))))
      | Inr False \<Rightarrow>
          (Inr (), (stream_write Stderr (inspect_any error @ newline) w)\<lparr>exitCode := Some 1\<rparr>))"

text \<open>The values on which the two conversions return, and the errors on which \<^verbatim>\<open>fault\<close>
  makes only such conversions.\<close>

fun converts :: "jsany \<Rightarrow> bool" where
  "converts (Plain (Obj fs)) = (\<not> own_toString fs)"
| "converts (Plain v) = True"
| "converts (Symbol d) = False"
| "converts (Object fs) = (\<not> own_toString fs)"

fun field_any :: "jsany \<Rightarrow> string \<Rightarrow> jsany" where
  "field_any (Plain v) k = Plain (field v k)"
| "field_any (Symbol d) k = Plain Undefined"
| "field_any (Object fs) k = (case map_of fs k of None \<Rightarrow> Plain Undefined | Some v \<Rightarrow> v)"

definition below_500 :: "env \<Rightarrow> jsany \<Rightarrow> bool" where
  "below_500 E c = (case js_lt_any E c 500 of Inl x \<Rightarrow> False | Inr b \<Rightarrow> b)"

definition fault_converts :: "env \<Rightarrow> jsany \<Rightarrow> bool" where
  \<comment> \<open>not classified as a problem; or the status code converts and, when it is below
      500, so does the message\<close>
  "fault_converts E error =
     (if field_any error ''isProblem'' = Plain (Bool True)
      then converts (field_any error ''httpCode'')
           \<and> (if below_500 E (field_any error ''httpCode'')
                then converts (field_any error ''message'') else True)
      else True)"


section \<open>Example collaborators\<close>

definition example_env :: env where
  "example_env =
     \<lparr>connect_throws = (\<lambda>k. None), destroy_throws = (\<lambda>h. None),
      append_settles = (\<lambda>action payload. Resolved Undefined),
      inspect = (\<lambda>v. case v of Str s \<Rightarrow> s | _ \<Rightarrow> ''<value>''),
      serialize = (\<lambda>v. v), serializable = (\<lambda>v. v),
      merge = (\<lambda>l r. Obj [(''success'', field l ''success''), (''details'', r)]),
      NumberToString = (\<lambda>n. ''<number>''), string_lt = (\<lambda>s n. False)\<rparr>"



definition destroy_throws_env :: env where
  \<comment> \<open>\<^verbatim>\<open>db.destroy()\<close> throws\<close>
  "destroy_throws_env = example_env\<lparr>destroy_throws := (\<lambda>h. Some (Str ''destroy failed''))\<rparr>"

definition no_database_env :: env where
  \<comment> \<open>the resource handle cannot be opened\<close>
  "no_database_env = example_env\<lparr>connect_throws := (\<lambda>k. Some (Str ''no database''))\<rparr>"

definition load_step :: step where
  "load_step = Step ''load'' (\<lambda>c x. Inr (Resolved (Num 1)))"

definition fail_step :: step where
  "fail_step = Step ''fail'' (\<lambda>c x. Inr (Rejected (Str ''boom'')))"

definition example_inspect_any :: "jsany \<Rightarrow> string" where
  "example_inspect_any v = (case v of Plain p \<Rightarrow> inspect example_env p | _ \<Rightarrow> ''<value>'')"


section \<open>The fault diagnostic\<close>

lemma fault_returns:
  "fault E e w = (Inr (), w\<lparr>stderr := stderr w @ spec_diagnostic E e, exitCode := Some 1\<rparr>)"
  by (cases e)
     (auto simp: fault_def fault_condition_def nullish_def spec_diagnostic_def
        user_facing_below_500_def writeToStderr_def writeTo_def stream_write_def Let_def
        split: option.splits bool.splits)

text \<open>
  On plain data the condition of \<^verbatim>\<open>fault\<close> evaluates without throwing, to the truth
  value of "a user-facing problem with status code below 500": the test
  \<^verbatim>\<open>error != null\<close> keeps the property reads away from the two values on which a read
  throws.
\<close>

lemma fault_condition_plain:
  "fault_condition E error = Inr (user_facing_below_500 E error)"
  by (cases error)
     (auto simp: fault_condition_def nullish_def user_facing_below_500_def
        split: option.splits)

lemma template_any_plain:
  "converts (Plain v) \<Longrightarrow> template_any E (Plain v) = Inr (template E v)"
  by (cases v) (simp_all add: object_to_primitive_def)

lemma js_lt_any_plain:
  "converts (Plain v) \<Longrightarrow> js_lt_any E (Plain v) n = Inr (js_lt E v n)"
  by (cases v) (simp_all add: object_to_primitive_def)

lemma getprop_any_field:
  "\<not> nullish_any error \<Longrightarrow> getprop_any error k = Inr (field_any error k)"
proof (cases error)
  case (Plain v)
  assume "\<not> nullish_any error"
  with Plain show ?thesis by (cases v) (simp_all add: nullish_any_def)
qed simp_all

lemma conversion_cases:
  "converts c \<Longrightarrow> \<exists>b. js_lt_any E c n = Inr b"
  "\<not> converts c \<Longrightarrow> \<exists>m. js_lt_any E c n = Inl (TypeError m)"
  "converts c \<Longrightarrow> \<exists>text. template_any E c = Inr text"
  "\<not> converts c \<Longrightarrow> \<exists>m. template_any E c = Inl (TypeError m)"
  by (induction c rule: converts.induct) (auto simp: object_to_primitive_def)

lemma nullish_any_field: "nullish_any error \<Longrightarrow> field_any error k = Plain Undefined"
  by (auto simp: nullish_any_def)

text \<open>
  C9, as the code has it. Over \<^verbatim>\<open>undefined\<close>, \<^verbatim>\<open>null\<close>, booleans, numbers, strings,
  symbols and objects with data properties: \<^verbatim>\<open>fault\<close> returns normally, having set the
  exit code, exactly when the conversions it makes return. That is the case for
  \<^verbatim>\<open>null\<close>, for \<^verbatim>\<open>undefined\<close> and for every value whose \<^verbatim>\<open>isProblem\<close> is not \<^verbatim>\<open>true\<close>
  (the inspected value is written); and for a problem whose status code converts to a
  number and, when the code is below 500, whose message converts to a string. For any
  other problem, one whose status code, or whose message when the code is below 500, is
  a symbol or an object that shadows \<^verbatim>\<open>toString\<close>, \<^verbatim>\<open>fault\<close> throws a TypeError and
  has neither written anything nor set the exit code.
\<close>

theorem fault_throws_on_conversion:
  "(fault_converts E error \<longrightarrow>
      fst (fault_any E inspect_any error w) = Inr ()
      \<and> exitCode (snd (fault_any E inspect_any error w)) = Some 1)
   \<and> (\<not> fault_converts E error \<longrightarrow>
      (\<exists>m. fst (fault_any E inspect_any error w) = Inl (TypeError m))
      \<and> snd (fault_any E inspect_any error w) = w)
   \<and> (nullish_any error \<or> field_any error ''isProblem'' \<noteq> Plain (Bool True) \<longrightarrow>
      fault_any E inspect_any error w =
        (Inr (), (stream_write Stderr (inspect_any error @ newline) w)\<lparr>exitCode := Some 1\<rparr>))"
proof (cases "nullish_any error")
  case True
  then show ?thesis
    by (simp add: fault_any_def fault_condition_any_def fault_converts_def nullish_any_field)
next
  case False
  note gp = getprop_any_field [OF False]
  show ?thesis
  proof (cases "field_any error ''isProblem'' = Plain (Bool True)")
    case notp: False
    with False show ?thesis
      by (simp add: fault_any_def fault_condition_any_def fault_converts_def gp)
  next
    case isp: True
    show ?thesis
    proof (cases "converts (field_any error ''httpCode'')")
      case cf: False
      from conversion_cases(2) [OF cf, of E 500]
      obtain m where "js_lt_any E (field_any error ''httpCode'') 500 = Inl (TypeError m)" ..
      with False isp cf show ?thesis
        by (auto simp: fault_any_def fault_condition_any_def fault_converts_def gp)
    next
      case ct: True
      from conversion_cases(1) [OF ct, of E 500]
      obtain b where b: "js_lt_any E (field_any error ''httpCode'') 500 = Inr b" ..
      show ?thesis
      proof (cases b)
        case bf: False
        with False isp ct b show ?thesis
          by (simp add: fault_any_def fault_condition_any_def fault_converts_def gp
                below_500_def)
      next
        case bt: True
        show ?thesis
        proof (cases "converts (field_any error ''message'')")
          case mt: True
          from conversion_cases(3) [OF mt, of E]
          obtain line where "template_any E (field_any error ''message'') = Inr line" ..
          with False isp ct b bt mt show ?thesis
            by (simp add: fault_any_def fault_condition_any_def fault_converts_def gp
                  below_500_def writeToStderr_any_def stream_write_def)
        next
          case mf: False
          from conversion_cases(4) [OF mf, of E]
          obtain m where "template_any E (field_any error ''message'') = Inl (TypeError m)" ..
          with False isp ct b bt mf show ?thesis
            by (auto simp: fault_any_def fault_condition_any_def fault_converts_def gp
                  below_500_def writeToStderr_any_def)
        qed
      qed
    qed
  qed
qed

theorem fault_throws_on_conversion_witness:
  "fault_any example_env example_inspect_any (Plain Null) boot =
     (Inr (), boot\<lparr>stderr := [''<value>'' @ newline], exitCode := Some 1\<rparr>)
   \<and> fst (fault_any example_env example_inspect_any
        (Plain (Obj [(''isProblem'', Bool True), (''httpCode'', Num 400),
           (''message'', Str ''Invalid input'')])) boot) = Inr ()
   \<and> exitCode (snd (fault_any example_env example_inspect_any
        (Plain (Obj [(''isProblem'', Bool True), (''httpCode'', Num 400),
           (''message'', Str ''Invalid input'')])) boot)) = Some 1
   \<and> snd (fault_any example_env example_inspect_any
        (Object [(''isProblem'', Plain (Bool True)), (''httpCode'', Plain (Num 400)),
           (''message'', Symbol ''reason'')]) boot) = boot"
proof -
  have c1: "nullish_any (Plain Null)
            \<or> field_any (Plain Null) ''isProblem'' \<noteq> Plain (Bool True)"
    by (simp add: nullish_any_def)
  have c2: "fault_converts example_env
        (Plain (Obj [(''isProblem'', Bool True), (''httpCode'', Num 400),
           (''message'', Str ''Invalid input'')]))"
    by (simp add: fault_converts_def)
  have c3: "\<not> fault_converts example_env
        (Object [(''isProblem'', Plain (Bool True)), (''httpCode'', Plain (Num 400)),
           (''message'', Symbol ''reason'')])"
    by (simp add: fault_converts_def below_500_def)
  show ?thesis
    using c1 c2 c3
      fault_throws_on_conversion [of example_env "Plain Null" example_inspect_any boot]
      fault_throws_on_conversion [of example_env
        "Plain (Obj [(''isProblem'', Bool True), (''httpCode'', Num 400),
           (''message'', Str ''Invalid input'')])" example_inspect_any boot]
      fault_throws_on_conversion [of example_env
        "Object [(''isProblem'', Plain (Bool True)), (''httpCode'', Plain (Num 400)),
           (''message'', Symbol ''reason'')]" example_inspect_any boot]
    by (simp add: example_inspect_any_def example_env_def stream_write_def boot_def)
qed

text \<open>
  The claim C9 as it is stated fails: \<^verbatim>\<open>fault\<close> throws on a problem with status 400
  whose message is a symbol, or a plain object with an own property \<^verbatim>\<open>toString\<close>, and on
  a problem whose status code is a symbol; the exit code is still unset.
\<close>

theorem fault_throws_counterexample:
  "fault_any example_env example_inspect_any
      (Object [(''isProblem'', Plain (Bool True)), (''httpCode'', Plain (Num 400)),
         (''message'', Symbol ''reason'')]) boot
     = (Inl (TypeError ''Cannot convert a Symbol value to a string''), boot)
   \<and> fault_any example_env example_inspect_any
      (Plain (Obj [(''isProblem'', Bool True), (''httpCode'', Num 400),
         (''message'', Obj [(''toString'', Null)])])) boot
     = (Inl (TypeError ''Cannot convert object to primitive value''), boot)
   \<and> fault_any example_env example_inspect_any
      (Object [(''isProblem'', Plain (Bool True)), (''httpCode'', Symbol ''code'')]) boot
     = (Inl (TypeError ''Cannot convert a Symbol value to a number''), boot)
   \<and> exitCode boot = None"
  by (simp add: fault_any_def fault_condition_any_def nullish_any_def writeToStderr_any_def
        object_to_primitive_def own_toString_def boot_def)

text \<open>
  On plain data whose conversions return, this is the \<^verbatim>\<open>fault\<close> of the task runner
  above.
\<close>

lemma fault_any_plain:
  assumes I: "\<And>v. inspect_any (Plain v) = inspect E v"
    and c: "fault_converts E (Plain e)"
  shows "fault_any E inspect_any (Plain e) w = fault E e w"
proof (cases "nullish e")
  case True
  then show ?thesis
    by (auto simp: fault_any_def fault_condition_any_def fault_def fault_condition_def
          nullish_def nullish_any_def I writeToStderr_def writeTo_def)
next
  case False
  then have n: "\<not> nullish_any (Plain e)" by (simp add: nullish_def nullish_any_def)
  have gp: "\<And>k. getprop e k = Inr (field e k)"
    using False by (cases e) (simp_all add: nullish_def)
  have na: "\<And>v. nullish_any (Plain v) = nullish v"
    by (simp add: nullish_def nullish_any_def)
  show ?thesis
  proof (cases "field e ''isProblem'' = Bool True")
    case notp: False
    with False n show ?thesis
      by (simp add: fault_any_def fault_condition_any_def fault_def fault_condition_def
            gp getprop_any_field [OF n] I writeToStderr_def writeTo_def)
  next
    case isp: True
    with c have cc: "converts (Plain (field e ''httpCode''))"
      by (simp add: fault_converts_def)
    note lt = js_lt_any_plain [OF cc, of E 500]
    show ?thesis
    proof (cases "js_lt E (field e ''httpCode'') 500")
      case lf: False
      with False n isp show ?thesis
        by (simp add: fault_any_def fault_condition_any_def fault_def fault_condition_def
              gp getprop_any_field [OF n] lt I writeToStderr_def writeTo_def)
    next
      case lt500: True
      with c isp have cm: "converts (Plain (field e ''message''))"
        by (simp add: fault_converts_def below_500_def lt)
      note tm = template_any_plain [OF cm, of E]
      from False n isp lt500 show ?thesis
        by (simp add: fault_any_def fault_condition_any_def fault_def fault_condition_def
              gp getprop_any_field [OF n] lt tm I na writeToStderr_def writeTo_def
              writeToStderr_any_def Let_def)
    qed
  qed
qed


section \<open>Producer functions\<close>

lemma run_force:
  "run E t w = (case force t w of
       (Inl x, w1) \<Rightarrow> (Inl x, w1)
     | (Inr p, w1) \<Rightarrow> (Inr (promise_then p (print_result E) (fault_handler E)), w1))"
  and run_call_force: "run_call E c = (case force_call c of
       (Inl x, w1) \<Rightarrow> (Inl x, w1)
     | (Inr p, w1) \<Rightarrow> (Inr (promise_then p (print_result E) (fault_handler E)), w1))"
  by (induction t and c arbitrary: w) simp_all

lemma auditing_force:
  "auditing E a t w = (case force t w of
       (Inl x, w1) \<Rightarrow> (Inl x, w1)
     | (Inr p, w1) \<Rightarrow> (Inr (promise_then p (audit_success E a) (audit_failure E a)), w1))"
  and auditing_call_force: "auditing_call E a c = (case force_call c of
       (Inl x, w1) \<Rightarrow> (Inl x, w1)
     | (Inr p, w1) \<Rightarrow> (Inr (promise_then p (audit_success E a) (audit_failure E a)), w1))"
  by (induction t and c arbitrary: w) simp_all

lemma force_thunks:
  "force ((thunk ^^ n) t) w = force t (w\<lparr>trace := trace w @ replicate n Invoked\<rparr>)"
proof (induction n arbitrary: w)
  case 0
  show ?case by simp
next
  case (Suc n)
  have "force ((thunk ^^ Suc n) t) w = force ((thunk ^^ n) t) (log_event Invoked w)"
    by (simp add: thunk_def)
  also have "\<dots> = force t (w\<lparr>trace := trace w @ replicate (Suc n) Invoked\<rparr>)"
    by (simp add: Suc.IH log_event_def replicate_app_Cons_same)
  finally show ?case .
qed

text \<open>
  C10. \<^verbatim>\<open>run\<close> and \<^verbatim>\<open>auditing\<close> call a producer function once and go on with what it
  returns (a producer that throws ends the call with its exception). So a task under any
  nesting of producers is run, and audited, exactly as the promise that the calls finally
  reach, from the state the calls leave; and \<open>n\<close> producers that record their call,
  wrapped around a task, are called once each.
\<close>

theorem producers_unwrapped:
  "run E (Producer f) w =
     (case f w of Threw x w1 \<Rightarrow> (Inl x, w1) | Returned t' w1 \<Rightarrow> run E t' w1)
   \<and> auditing E action (Producer f) w =
     (case f w of Threw x w1 \<Rightarrow> (Inl x, w1) | Returned t' w1 \<Rightarrow> auditing E action t' w1)
   \<and> (force tk w = (Inr t, w1) \<longrightarrow>
        run E tk w = run E (InFlight t) w1
        \<and> auditing E action tk w = auditing E action (InFlight t) w1)
   \<and> (force tk w = (Inl x, w1) \<longrightarrow>
        run E tk w = (Inl x, w1) \<and> auditing E action tk w = (Inl x, w1))
   \<and> run E ((thunk ^^ n) tk) w = run E tk (w\<lparr>trace := trace w @ replicate n Invoked\<rparr>)
   \<and> auditing E action ((thunk ^^ n) tk) w =
        auditing E action tk (w\<lparr>trace := trace w @ replicate n Invoked\<rparr>)"
  by (simp add: run_force auditing_force force_thunks split: call.split)

theorem producers_unwrapped_witness:
  "force (thunk (thunk (InFlight (Promise_resolve (Num 1))))) boot =
     (Inr (Promise_resolve (Num 1)), boot\<lparr>trace := [Invoked, Invoked]\<rparr>)
   \<and> run example_env (thunk (thunk (InFlight (Promise_resolve (Num 1))))) boot =
       run example_env (InFlight (Promise_resolve (Num 1))) (boot\<lparr>trace := [Invoked, Invoked]\<rparr>)
   \<and> auditing example_env ''backup'' (thunk (thunk (InFlight (Promise_resolve (Num 1))))) boot =
       auditing example_env ''backup'' (InFlight (Promise_resolve (Num 1)))
         (boot\<lparr>trace := [Invoked, Invoked]\<rparr>)"
proof -
  have f: "force (thunk (thunk (InFlight (Promise_resolve (Num 1))))) boot =
             (Inr (Promise_resolve (Num 1)), boot\<lparr>trace := [Invoked, Invoked]\<rparr>)"
    by (simp add: thunk_def log_event_def boot_def)
  show ?thesis
    using f producers_unwrapped [of example_env "\<lambda>w. Threw Null w" boot "''backup''"
        "thunk (thunk (InFlight (Promise_resolve (Num 1))))" "Promise_resolve (Num 1)"
        "boot\<lparr>trace := [Invoked, Invoked]\<rparr>" Null 0]
    by simp
qed


section \<open>The task runner\<close>



text \<open>
  C5. When the task run by the runner resolves with \<open>v\<close>, the runner makes exactly one
  write to standard output, the inspection of the serialized value followed by a newline;
  it writes nothing to standard error and leaves the exit code, hence the exit status, as
  it was.
\<close>

theorem run_success_output:
  assumes "force tk w0 = (Inr t, w)" and "t w = (Resolved v, w1)"
  shows "drive (run E tk w0) =
           (Inr (Resolved (Bool True)),
            w1\<lparr>stdout := stdout w1 @ [inspect E (serialize E v) @ newline]\<rparr>)
         \<and> stderr (snd (drive (run E tk w0))) = stderr w1
         \<and> exitCode (snd (drive (run E tk w0))) = exitCode w1
         \<and> exit_status (snd (drive (run E tk w0))) = exit_status w1"
  using assms
  by (simp add: run_force drive_def promise_then_def print_result_def writeTo_def
        stream_write_def exit_status_def)

theorem run_success_output_witness:
  "drive (run example_env (InFlight (Promise_resolve (Str ''done''))) boot) =
     (Inr (Resolved (Bool True)), boot\<lparr>stdout := [''done'' @ newline]\<rparr>)
   \<and> stderr (snd (drive (run example_env (InFlight (Promise_resolve (Str ''done''))) boot))) = []
   \<and> exit_status (snd (drive (run example_env (InFlight (Promise_resolve (Str ''done''))) boot))) = 0"
  using run_success_output [of "InFlight (Promise_resolve (Str ''done''))" boot
      "Promise_resolve (Str ''done'')" boot "Str ''done''" boot example_env]
  by (simp add: Promise_resolve_def example_env_def boot_def exit_status_def)


section \<open>Audit logging: outcome, diagnostic and order\<close>

lemma auditLog_registered:
  "container w = Some c \<Longrightarrow>
   auditLog E (a, b, d) w = (Inr (Audit_log E c a (merge E (Obj [(''success'', Bool b)]) d)), w)"
  by (simp add: auditLog_def withContainer_def)

lemma auditLog_owner:
  "container w = None \<Longrightarrow> connect_throws E (opened w) = None \<Longrightarrow>
   auditLog E (a, b, d) w =
     (Inr (promise_then (Audit_log E (Container (opened w)) a (merge E (Obj [(''success'', Bool b)]) d))
             (cleanup E Promise_resolve) (cleanup E Promise_reject)),
      w\<lparr>container := Some (Container (opened w)), opened := Suc (opened w),
        trace := trace w @ [Constructed (opened w)]\<rparr>)"
  by (simp add: auditLog_def withContainer_def construct_def)

lemma auditLog_throws:
  "container w = None \<Longrightarrow> connect_throws E (opened w) = Some x \<Longrightarrow>
   auditLog E args w = (Inl x, w)"
  by (simp add: auditLog_def withContainer_def construct_def)

lemmas audit_unfold =
  audit_success_def audit_failure_def promise_then_def Audit_log_def cleanup_def
  log_event_def audit_record_def Promise_resolve_def Promise_reject_def audit_failed_def
  fault_returns writeToStderr_def writeTo_def stream_write_def audit_handle_def
  audit_rejection_def exit_status_def

lemma audited_drive:
  "force tk w0 = (Inr t, w) \<Longrightarrow>
   drive (auditing E action tk w0) =
     (case promise_then t (audit_success E action) (audit_failure E action) w of
        (s, w') \<Rightarrow> (Inr s, w'))"
  by (simp add: auditing_force drive_def)




text \<open>
  When the audit call cannot construct its container, nothing is appended and the audited
  task rejects with the exception of the construction, whatever the task's own outcome.
\<close>

lemma auditing_without_container:
  assumes "force tk w0 = (Inr t, w)" and "t w = (s, w1)" and "s \<noteq> Pending"
    and "container w1 = None" and "connect_throws E (opened w1) = Some x"
  shows "drive (auditing E action tk w0) = (Inr (Rejected x), w1)"
  using assms
  by (cases s)
     (simp_all add: audited_drive promise_then_def audit_success_def audit_failure_def
        auditLog_throws)




text \<open>
  C8. The audit append is made on the state in which the task has settled, so after
  everything the task did, and before the audited task settles: the state in which it
  settles already holds the append (between the construction and the teardown of the
  container when the audit call owns it). While the task is pending nothing is appended,
  and while the append is pending the audited task is pending. When the container of the
  audit call cannot be constructed there is no append at all.
\<close>

theorem audit_append_ordering:
  assumes tk: "force tk w0 = (Inr t, w)" and t: "t w = (s, w1)"
  shows "(s = Pending \<longrightarrow> drive (auditing E action tk w0) = (Inr Pending, w1))
       \<and> (s \<noteq> Pending \<and> (container w1 \<noteq> None \<or> connect_throws E (opened w1) = None) \<longrightarrow>
            trace (snd (drive (auditing E action tk w0))) =
              trace w1
              @ (if container w1 = None then [Constructed (opened w1)] else [])
              @ [Appended (audit_handle w1) action (audit_record E s)]
              @ (if container w1 = None \<and> append_settles E action (audit_record E s) \<noteq> Pending
                 then [Destroyed (opened w1)] else [])
            \<and> (append_settles E action (audit_record E s) = Pending \<longrightarrow>
                 fst (drive (auditing E action tk w0)) = Inr Pending))
       \<and> (s \<noteq> Pending \<and> container w1 = None \<and> connect_throws E (opened w1) = Some x \<longrightarrow>
            drive (auditing E action tk w0) = (Inr (Rejected x), w1))"
proof (intro conjI impI)
  assume "s = Pending"
  with t show "drive (auditing E action tk w0) = (Inr Pending, w1)"
    by (simp add: audited_drive [OF tk] promise_then_def)
next
  assume "s \<noteq> Pending \<and> container w1 = None \<and> connect_throws E (opened w1) = Some x"
  then show "drive (auditing E action tk w0) = (Inr (Rejected x), w1)"
    using auditing_without_container [OF tk t] by simp
next
  assume a: "s \<noteq> Pending \<and> (container w1 \<noteq> None \<or> connect_throws E (opened w1) = None)"
  show "trace (snd (drive (auditing E action tk w0))) =
              trace w1
              @ (if container w1 = None then [Constructed (opened w1)] else [])
              @ [Appended (audit_handle w1) action (audit_record E s)]
              @ (if container w1 = None \<and> append_settles E action (audit_record E s) \<noteq> Pending
                 then [Destroyed (opened w1)] else [])"
  proof (cases "container w1")
    case None
    with a have c: "connect_throws E (opened w1) = None" by simp
    show ?thesis
      using t None a
      by (cases s; cases "append_settles E action (audit_record E s)";
          cases "destroy_throws E (opened w1)")
         (simp_all add: audited_drive [OF tk] auditLog_owner [OF None c] audit_unfold)
  next
    case (Some c)
    show ?thesis
      using t Some a
      by (cases s; cases "append_settles E action (audit_record E s)")
         (simp_all add: audited_drive [OF tk] auditLog_registered [OF Some] audit_unfold)
  qed
next
  assume a: "s \<noteq> Pending \<and> (container w1 \<noteq> None \<or> connect_throws E (opened w1) = None)"
    and p: "append_settles E action (audit_record E s) = Pending"
  show "fst (drive (auditing E action tk w0)) = Inr Pending"
  proof (cases "container w1")
    case None
    with a have c: "connect_throws E (opened w1) = None" by simp
    show ?thesis
      using t None a p
      by (cases s)
         (simp_all add: audited_drive [OF tk] auditLog_owner [OF None c] audit_unfold)
  next
    case (Some c)
    show ?thesis
      using t Some a p
      by (cases s)
         (simp_all add: audited_drive [OF tk] auditLog_registered [OF Some] audit_unfold)
  qed
qed

theorem audit_append_ordering_witness:
  "trace (snd (drive (auditing example_env ''backup''
      (InFlight (settled_after (Used 5 ''work'') (Resolved (Num 7)))) boot))) =
     [Used 5 ''work'', Constructed 0,
      Appended 0 ''backup'' (Obj [(''success'', Bool True), (''details'', Num 7)]),
      Destroyed 0]"
proof -
  let ?t = "settled_after (Used 5 ''work'') (Resolved (Num 7))"
  have f: "force (InFlight ?t) boot = (Inr ?t, boot)" by simp
  have v: "?t boot = (Resolved (Num 7), log_event (Used 5 ''work'') boot)"
    by (simp add: settled_after_def)
  show ?thesis
    using audit_append_ordering [OF f v, of example_env "''backup''"]
    by (simp add: boot_def log_event_def audit_record_def audit_handle_def example_env_def)
qed


section \<open>The container's lifecycle\<close>

lemma dependents_run:
  "container w = Some c \<Longrightarrow>
   adopt (dependents E ss v w) =
     (chain_outcome ss c v, w\<lparr>trace := trace w @ chain_uses ss c v\<rparr>)"
proof (induction ss arbitrary: v w)
  case Nil
  then show ?case by simp
next
  case (Cons s ss)
  let ?w1 = "log_event (Used (db c) (label s)) w"
  have slot: "container ?w1 = Some c"
    using Cons.prems by (simp add: log_event_def)
  show ?case
  proof (cases "body s c v")
    case (Inl e)
    with Cons.prems show ?thesis
      by (simp add: withContainer_def step_def_def log_event_def)
  next
    case (Inr out)
    show ?thesis
    proof (cases out)
      case (Resolved v')
      have "adopt (dependents E (s # ss) v w) = adopt (dependents E ss v' ?w1)"
        using Cons.prems Inr Resolved
        by (simp add: withContainer_def step_def_def promise_then_def settled_def)
      also have "\<dots> = (chain_outcome ss c v', ?w1\<lparr>trace := trace ?w1 @ chain_uses ss c v'\<rparr>)"
        by (rule Cons.IH [OF slot])
      finally show ?thesis
        using Inr Resolved by (simp add: log_event_def)
    next
      case (Rejected e)
      with Cons.prems Inr show ?thesis
        by (simp add: withContainer_def step_def_def promise_then_def settled_def
              rethrow_def log_event_def)
    next
      case Pending
      with Cons.prems Inr show ?thesis
        by (simp add: withContainer_def step_def_def promise_then_def settled_def
              log_event_def)
    qed
  qed
qed

lemma chain_call:
  assumes "container w = None" and "connect_throws E (opened w) = None"
    and "body s (Container (opened w)) x = Inr o1"
  shows "chain E s ss x w =
     (Inr (promise_then (promise_then (settled o1) (dependents E ss) rethrow)
             (cleanup E Promise_resolve) (cleanup E Promise_reject)),
      w\<lparr>container := Some (Container (opened w)), opened := Suc (opened w),
        trace := trace w @ [Constructed (opened w), Used (opened w) (label s)]\<rparr>)"
  using assms
  by (simp add: chain_def withContainer_def construct_def chain_def_def step_def_def
        log_event_def)

lemma owner_settles:
  assumes "p w0 = (out, w1)" and "container w1 = Some c"
  shows "promise_then p (cleanup E Promise_resolve) (cleanup E Promise_reject) w0 =
     (if out = Pending then (Pending, w1)
      else case destroy_throws E (db c) of
             Some d \<Rightarrow> (Rejected d, log_event (Destroyed (db c)) w1)
           | None \<Rightarrow> (out, (log_event (Destroyed (db c)) w1)\<lparr>container := None\<rparr>))"
  using assms
  by (cases out; cases "destroy_throws E (db c)")
     (simp_all add: promise_then_def cleanup_def Promise_resolve_def Promise_reject_def)

lemma first_settles:
  assumes "container w0 = Some c" and "body s c x = Inr o1"
  shows "promise_then (settled o1) (dependents E ss) rethrow w0 =
     (chain_outcome (s # ss) c x,
      w0\<lparr>trace := trace w0 @ (case o1 of Resolved v' \<Rightarrow> chain_uses ss c v' | _ \<Rightarrow> [])\<rparr>)"
  using assms dependents_run [OF assms(1), of E ss]
  by (cases o1) (simp_all add: promise_then_def settled_def rethrow_def)

lemma chain_drive:
  assumes slot: "container w = None" and con: "connect_throws E (opened w) = None"
    and first: "body s (Container (opened w)) x = Inr o1"
  shows "drive (chain E s ss x w) =
     (let h = opened w; c = Container h; out = chain_outcome (s # ss) c x;
          w1 = w\<lparr>container := Some c, opened := Suc h,
                 trace := trace w @ Constructed h # chain_uses (s # ss) c x\<rparr>
      in if out = Pending then (Inr Pending, w1)
         else case destroy_throws E h of
                Some d \<Rightarrow> (Inr (Rejected d), log_event (Destroyed h) w1)
              | None \<Rightarrow> (Inr out, (log_event (Destroyed h) w1)\<lparr>container := None\<rparr>))"
proof -
  let ?c = "Container (opened w)"
  let ?w0 = "w\<lparr>container := Some ?c, opened := Suc (opened w),
        trace := trace w @ [Constructed (opened w), Used (opened w) (label s)]\<rparr>"
  let ?w1 = "?w0\<lparr>trace := trace ?w0 @ (case o1 of Resolved v' \<Rightarrow> chain_uses ss ?c v' | _ \<Rightarrow> [])\<rparr>"
  have s0: "container ?w0 = Some ?c" by simp
  have s1: "container ?w1 = Some ?c" by simp
  note inner = first_settles [OF s0 first, of E ss]
  show ?thesis
    unfolding chain_call [OF slot con first] drive_def
    by (simp add: owner_settles [of "promise_then (settled o1) (dependents E ss) rethrow" ?w0,
          OF inner s1] Let_def first split: option.split)
qed

text \<open>
  A first step whose body throws leaves the container it has just constructed registered:
  no promise is returned, so no cleanup is attached.
\<close>

lemma chain_first_throws:
  assumes "container w = None" and "connect_throws E (opened w) = None"
    and "body s (Container (opened w)) x = Inl e"
  shows "chain E s ss x w =
     (Inl e, w\<lparr>container := Some (Container (opened w)), opened := Suc (opened w),
        trace := trace w @ [Constructed (opened w), Used (opened w) (label s)]\<rparr>)"
  using assms
  by (simp add: chain_def withContainer_def construct_def chain_def_def step_def_def
        log_event_def)

lemma chain_uses_counts:
  "constructions (chain_uses ss c v) = 0" "teardowns (chain_uses ss c v) = 0"
  by (induction ss arbitrary: v)
     (simp_all add: constructions_def teardowns_def split: sum.split settle.split)

lemma counts_append:
  "constructions (xs @ ys) = constructions xs + constructions ys"
  "teardowns (xs @ ys) = teardowns xs + teardowns ys"
  by (simp_all add: constructions_def teardowns_def)

lemma chain_drive_clean:
  assumes slot: "container w = None" and con: "connect_throws E (opened w) = None"
    and des: "destroy_throws E (opened w) = None"
    and first: "body s (Container (opened w)) x = Inr o1"
  shows "drive (chain E s ss x w) =
     (Inr (chain_outcome (s # ss) (Container (opened w)) x),
      w\<lparr>container := (if chain_outcome (s # ss) (Container (opened w)) x = Pending
                      then Some (Container (opened w)) else None),
        opened := Suc (opened w),
        trace := trace w @ [Constructed (opened w)]
                 @ chain_uses (s # ss) (Container (opened w)) x
                 @ (if chain_outcome (s # ss) (Container (opened w)) x = Pending then []
                    else [Destroyed (opened w)])\<rparr>)"
  unfolding chain_drive [OF slot con first, where ss = ss]
  using des by (simp add: Let_def log_event_def)

text \<open>
  C3, as the code has it. Take a chain whose dependent steps are called inside the task
  definition of the first step, in \<^verbatim>\<open>then\<close> handlers of the promise that the task
  definition returns to \<^verbatim>\<open>withContainer\<close> (so before the cleanup of the first step).
  Let it start with no container registered, let the container be constructed, let the
  first step return its promise, and let \<^verbatim>\<open>db.destroy()\<close> return normally. The chain
  settles as its steps say, whatever their number and wherever one of them fails. The
  container is constructed once, before every step, and every step uses it. When the
  chain settles the teardown is the last event and happens once, and the slot is empty;
  while the chain is pending there is no teardown. A second such chain started afterwards
  constructs the next handle, uses only that one, and tears it down in turn.
\<close>

theorem chain_lifecycle:
  assumes slot: "container w = None" and con: "connect_throws E (opened w) = None"
    and des: "destroy_throws E (opened w) = None"
    and first: "body s (Container (opened w)) x = Inr o1"
  shows "let h = opened w; c = Container h; out = chain_outcome (s # ss) c x;
             r = drive (chain E s ss x w)
         in fst r = Inr out
          \<and> trace (snd r) =
              trace w @ [Constructed h] @ chain_uses (s # ss) c x
                @ (if out = Pending then [] else [Destroyed h])
          \<and> constructions (trace (snd r)) = Suc (constructions (trace w))
          \<and> teardowns (trace (snd r)) = teardowns (trace w) + (if out = Pending then 0 else 1)
          \<and> container (snd r) = (if out = Pending then Some c else None)
          \<and> (out \<noteq> Pending \<and> connect_throws E (Suc h) = None
               \<and> destroy_throws E (Suc h) = None
               \<and> body s' (Container (Suc h)) x' = Inr o2 \<longrightarrow>
              (let c' = Container (Suc h); out' = chain_outcome (s' # ss') c' x';
                   r' = drive (chain E s' ss' x' (snd r))
               in fst r' = Inr out'
                \<and> trace (snd r') =
                    trace (snd r) @ [Constructed (Suc h)] @ chain_uses (s' # ss') c' x'
                      @ (if out' = Pending then [] else [Destroyed (Suc h)])
                \<and> container (snd r') = (if out' = Pending then Some c' else None)))"
proof -
  let ?h = "opened w"
  let ?c = "Container ?h"
  let ?out = "chain_outcome (s # ss) ?c x"
  let ?r = "drive (chain E s ss x w)"
  note r = chain_drive_clean [OF slot con des first, where ss = ss]
  have cu: "constructions (chain_uses (s # ss) ?c x) = 0" "teardowns (chain_uses (s # ss) ?c x) = 0"
    by (rule chain_uses_counts)+
  have one: "fst ?r = Inr ?out"
    and tr: "trace (snd ?r) = trace w @ [Constructed ?h] @ chain_uses (s # ss) ?c x
                @ (if ?out = Pending then [] else [Destroyed ?h])"
    and sl: "container (snd ?r) = (if ?out = Pending then Some ?c else None)"
    and op: "opened (snd ?r) = Suc ?h"
    unfolding r by simp_all
  have cn: "constructions (trace (snd ?r)) = Suc (constructions (trace w))"
    and td: "teardowns (trace (snd ?r)) = teardowns (trace w) + (if ?out = Pending then 0 else 1)"
    unfolding tr counts_append cu by (simp_all add: constructions_def teardowns_def)
  have two: "let c' = Container (Suc ?h); out' = chain_outcome (s' # ss') c' x';
                 r' = drive (chain E s' ss' x' (snd ?r))
             in fst r' = Inr out'
              \<and> trace (snd r') =
                  trace (snd ?r) @ [Constructed (Suc ?h)] @ chain_uses (s' # ss') c' x'
                    @ (if out' = Pending then [] else [Destroyed (Suc ?h)])
              \<and> container (snd r') = (if out' = Pending then Some c' else None)"
    if "?out \<noteq> Pending" "connect_throws E (Suc ?h) = None" "destroy_throws E (Suc ?h) = None"
       "body s' (Container (Suc ?h)) x' = Inr o2"
  proof -
    have a: "container (snd ?r) = None" using sl that(1) by simp
    have b: "connect_throws E (opened (snd ?r)) = None" using op that(2) by simp
    have c: "destroy_throws E (opened (snd ?r)) = None" using op that(3) by simp
    have d: "body s' (Container (opened (snd ?r))) x' = Inr o2" using op that(4) by simp
    show ?thesis
      unfolding chain_drive_clean [OF a b c d, where ss = ss'] Let_def
      using op by simp
  qed
  show ?thesis
    unfolding Let_def using one tr cn td sl two unfolding Let_def by blast
qed

theorem chain_lifecycle_witness:
  "fst (drive (chain example_env load_step [fail_step, load_step] (Num 0) boot))
     = Inr (Rejected (Str ''boom''))
   \<and> trace (snd (drive (chain example_env load_step [fail_step, load_step] (Num 0) boot)))
     = [Constructed 0, Used 0 ''load'', Used 0 ''fail'', Destroyed 0]
   \<and> container (snd (drive (chain example_env load_step [fail_step, load_step] (Num 0) boot)))
     = None
   \<and> trace (snd (drive (chain example_env load_step [] (Num 0)
        (snd (drive (chain example_env load_step [fail_step, load_step] (Num 0) boot))))))
     = [Constructed 0, Used 0 ''load'', Used 0 ''fail'', Destroyed 0,
        Constructed 1, Used 1 ''load'', Destroyed 1]"
proof -
  have slot: "container boot = None" by (simp add: boot_def)
  have con: "connect_throws example_env (opened boot) = None" by (simp add: example_env_def)
  have des: "destroy_throws example_env (opened boot) = None" by (simp add: example_env_def)
  have first: "body load_step (Container (opened boot)) (Num 0) = Inr (Resolved (Num 1))"
    by (simp add: load_step_def)
  have env: "connect_throws example_env (Suc (opened boot)) = None"
    "destroy_throws example_env (Suc (opened boot)) = None"
    by (simp_all add: example_env_def)
  have second: "body load_step (Container (Suc (opened boot))) (Num 0) = Inr (Resolved (Num 1))"
    by (simp add: load_step_def)
  have out: "chain_outcome [load_step, fail_step, load_step] (Container (opened boot)) (Num 0)
               = Rejected (Str ''boom'')"
    "chain_uses [load_step, fail_step, load_step] (Container (opened boot)) (Num 0)
               = [Used 0 ''load'', Used 0 ''fail'']"
    "chain_outcome [load_step] (Container (Suc (opened boot))) (Num 0) = Resolved (Num 1)"
    "chain_uses [load_step] (Container (Suc (opened boot))) (Num 0) = [Used 1 ''load'']"
    by (simp_all add: load_step_def fail_step_def boot_def)
  show ?thesis
    using chain_lifecycle [OF slot con des first, where ss = "[fail_step, load_step]"
        and s' = load_step and ss' = "[]" and x' = "Num 0" and ?o2.0 = "Resolved (Num 1)"]
      env second
    unfolding Let_def out
    by (simp add: boot_def)
qed

text \<open>
  The claim C3 as it is stated fails in two ways. Steps chained on the promise that the
  first call returns, \<^verbatim>\<open>step1(x).then(step2).then(step3)\<close>, each run after the teardown
  of the step before: three steps construct three containers and destroy three. And when
  \<^verbatim>\<open>db.destroy()\<close> throws, the statement that clears the slot is skipped: the chain of
  two steps below would resolve with 1; it does not, its container stays registered, and
  the chain started next constructs nothing.
\<close>

theorem chain_claim_counterexample:
  "constructions (trace (snd (drive
      (flat_chain example_env load_step [load_step, load_step] (Num 0) boot)))) = 3
   \<and> teardowns (trace (snd (drive
      (flat_chain example_env load_step [load_step, load_step] (Num 0) boot)))) = 3
   \<and> trace (snd (drive (flat_chain example_env load_step [load_step] (Num 0) boot)))
       = [Constructed 0, Used 0 ''load'', Destroyed 0, Constructed 1, Used 1 ''load'', Destroyed 1]
   \<and> chain_outcome [load_step, load_step] (Container 0) (Num 0) = Resolved (Num 1)
   \<and> container (snd (drive (chain destroy_throws_env load_step [load_step] (Num 0) boot)))
       = Some (Container 0)
   \<and> fst (drive (chain destroy_throws_env load_step [load_step] (Num 0) boot))
       \<noteq> Inr (Resolved (Num 1))
   \<and> constructions (trace (snd (drive (chain destroy_throws_env load_step [] (Num 0)
        (snd (drive (chain destroy_throws_env load_step [load_step] (Num 0) boot))))))) = 1"
  by (simp add: drive_def flat_chain_def call_step_def chain_def withContainer_def
        construct_def chain_def_def step_def_def
        promise_then_def settled_def cleanup_def log_event_def rethrow_def
        Promise_resolve_def Promise_reject_def boot_def destroy_throws_env_def example_env_def
        load_step_def constructions_def teardowns_def)

text \<open>
  C7, as the code has it. When the chain of an owning step settles and \<^verbatim>\<open>db.destroy()\<close>
  throws during the teardown, the exception is not contained: the chain rejects with the
  thrown value, whatever its own outcome, and the slot stays registered. When
  \<^verbatim>\<open>db.destroy()\<close> returns normally the chain settles with its own outcome and the slot
  is cleared. In both cases \<^verbatim>\<open>db.destroy()\<close> is called once.
\<close>

theorem teardown_exception_replaces_outcome:
  assumes slot: "container w = None" and con: "connect_throws E (opened w) = None"
    and first: "body s (Container (opened w)) x = Inr o1"
    and settled: "chain_outcome (s # ss) (Container (opened w)) x \<noteq> Pending"
  shows "(destroy_throws E (opened w) = Some d \<longrightarrow>
            fst (drive (chain E s ss x w)) = Inr (Rejected d)
            \<and> container (snd (drive (chain E s ss x w))) = Some (Container (opened w))
            \<and> teardowns (trace (snd (drive (chain E s ss x w)))) = Suc (teardowns (trace w)))
       \<and> (destroy_throws E (opened w) = None \<longrightarrow>
            fst (drive (chain E s ss x w)) = Inr (chain_outcome (s # ss) (Container (opened w)) x)
            \<and> container (snd (drive (chain E s ss x w))) = None
            \<and> teardowns (trace (snd (drive (chain E s ss x w)))) = Suc (teardowns (trace w)))"
proof -
  have cu: "teardowns (chain_uses (s # ss) (Container (opened w)) x) = 0"
    by (rule chain_uses_counts)
  have t: "teardowns (trace w @ Constructed (opened w) # chain_uses (s # ss) (Container (opened w)) x
             @ [Destroyed (opened w)]) = Suc (teardowns (trace w))"
    using cu unfolding counts_append by (simp add: teardowns_def)
  show ?thesis
    unfolding chain_drive [OF slot con first, where ss = ss]
    using settled t by (simp add: Let_def log_event_def del: chain_outcome.simps chain_uses.simps)
qed

theorem teardown_exception_replaces_outcome_witness:
  "fst (drive (chain destroy_throws_env load_step [load_step, load_step] (Num 0) boot))
     = Inr (Rejected (Str ''destroy failed''))
   \<and> container (snd (drive (chain destroy_throws_env load_step [load_step, load_step] (Num 0) boot)))
     = Some (Container 0)
   \<and> fst (drive (chain example_env load_step [load_step, load_step] (Num 0) boot))
     = Inr (Resolved (Num 1))
   \<and> container (snd (drive (chain example_env load_step [load_step, load_step] (Num 0) boot)))
     = None"
proof -
  have slot: "container boot = None" by (simp add: boot_def)
  have con: "connect_throws destroy_throws_env (opened boot) = None"
    "connect_throws example_env (opened boot) = None"
    by (simp_all add: destroy_throws_env_def example_env_def)
  have first: "body load_step (Container (opened boot)) (Num 0) = Inr (Resolved (Num 1))"
    by (simp add: load_step_def)
  have out: "chain_outcome [load_step, load_step, load_step] (Container (opened boot)) (Num 0)
               = Resolved (Num 1)"
    by (simp add: load_step_def)
  have settled: "chain_outcome (load_step # [load_step, load_step]) (Container (opened boot)) (Num 0)
               \<noteq> Pending"
    by (simp add: load_step_def)
  have des: "destroy_throws destroy_throws_env (opened boot) = Some (Str ''destroy failed'')"
    "destroy_throws example_env (opened boot) = None"
    by (simp_all add: destroy_throws_env_def example_env_def)
  show ?thesis
    using teardown_exception_replaces_outcome [OF slot con(1) first settled,
        where d = "Str ''destroy failed''"]
      teardown_exception_replaces_outcome [OF slot con(2) first settled,
        where d = "Str ''destroy failed''"]
      des out
    by (simp add: boot_def)
qed

text \<open>
  The claim C7 as it is stated fails: a chain that rejects with \<^verbatim>\<open>boom\<close>, and one that
  resolves with 1, both reject with the exception of \<^verbatim>\<open>db.destroy()\<close>.
\<close>

theorem teardown_exception_counterexample:
  "chain_outcome [fail_step] (Container 0) (Num 0) = Rejected (Str ''boom'')
   \<and> fst (drive (chain destroy_throws_env fail_step [] (Num 0) boot))
       = Inr (Rejected (Str ''destroy failed''))
   \<and> chain_outcome [load_step] (Container 0) (Num 0) = Resolved (Num 1)
   \<and> fst (drive (chain destroy_throws_env load_step [] (Num 0) boot))
       = Inr (Rejected (Str ''destroy failed''))"
  by (simp add: drive_def chain_def withContainer_def construct_def chain_def_def step_def_def
        promise_then_def settled_def cleanup_def log_event_def rethrow_def
        Promise_resolve_def Promise_reject_def boot_def destroy_throws_env_def example_env_def
        load_step_def fail_step_def)

text \<open>
  C6, as the code has it. When no container is registered and its construction throws,
  the call of the wrapped task function throws that exception: it returns no promise, it
  does not call the task definition, and it leaves the state, the empty slot included, as
  it was. Inside a \<^verbatim>\<open>then\<close> handler the exception becomes the rejection of that handler's
  promise; a producer passed to \<^verbatim>\<open>run\<close> or \<^verbatim>\<open>auditing\<close> makes these throw in turn,
  before anything is printed or audited.
\<close>

theorem construction_failure_is_thrown:
  assumes "container w = None" and "connect_throws E (opened w) = Some x"
  shows "withContainer E taskdef args w = (Inl x, w)
       \<and> container (snd (withContainer E taskdef args w)) = None
       \<and> adopt (dependents E (s # ss) v w) = (Rejected x, w)
       \<and> run E (producer_of (withContainer E taskdef args)) w = (Inl x, w)
       \<and> auditing E action (producer_of (withContainer E taskdef args)) w = (Inl x, w)"
  using assms
  by (simp add: withContainer_def construct_def producer_of_def invoke_def)

theorem construction_failure_is_thrown_witness:
  "withContainer no_database_env (step_def load_step) (Num 0) boot
     = (Inl (Str ''no database''), boot)
   \<and> container (snd (withContainer no_database_env (step_def load_step) (Num 0) boot)) = None
   \<and> adopt (dependents no_database_env [load_step] (Num 0) boot)
     = (Rejected (Str ''no database''), boot)"
proof -
  have slot: "container boot = None" by (simp add: boot_def)
  have con: "connect_throws no_database_env (opened boot) = Some (Str ''no database'')"
    by (simp add: no_database_env_def)
  show ?thesis
    using construction_failure_is_thrown [OF slot con, where taskdef = "step_def load_step"
        and args = "Num 0" and s = load_step and ss = "[]" and v = "Num 0"
        and action = "''backup''"] slot
    by (simp del: dependents.simps)
qed

text \<open>
  The claim C6 as it is stated fails in its first part: a task failure reaches the
  rejection handlers of \<^verbatim>\<open>run\<close> and \<^verbatim>\<open>auditing\<close>, a failed construction does not. When
  the first step cannot construct its container \<^verbatim>\<open>run\<close> and \<^verbatim>\<open>auditing\<close> throw and
  leave the process state untouched, whereas a task rejecting with the same error is
  reported on standard error and sets the exit code.
\<close>

theorem construction_failure_counterexample:
  "drive (run no_database_env (producer_of (chain no_database_env load_step [] (Num 0))) boot)
     = (Inl (Str ''no database''), boot)
   \<and> drive (auditing no_database_env ''backup''
        (producer_of (chain no_database_env load_step [] (Num 0))) boot)
     = (Inl (Str ''no database''), boot)
   \<and> drive (run no_database_env (InFlight (Promise_reject (Str ''no database''))) boot)
     = (Inr (Resolved Undefined),
        boot\<lparr>stderr := [''no database'' @ newline], exitCode := Some 1\<rparr>)"
  by (simp add: drive_def chain_def withContainer_def construct_def producer_of_def invoke_def
        promise_then_def Promise_reject_def fault_handler_def fault_returns
        spec_diagnostic_def user_facing_below_500_def
        boot_def no_database_env_def example_env_def)

end
